theory Spec2Isabelle
  imports Complex_Main "HOL-Library.Option_ord" "HOL-Library.Multiset"
begin

section \<open>The stored documents\<close>

text \<open>
  A catalog item as the queries of \<^verbatim>\<open>db_manager.py\<close> read it: the fields \<^verbatim>\<open>name\<close>,
  \<^verbatim>\<open>uri\<close>, \<^verbatim>\<open>global_rating\<close>, \<^verbatim>\<open>reviews_count\<close> and the two nested documents
  \<^verbatim>\<open>main_author\<close> and \<^verbatim>\<open>main_actor\<close>, each with \<^verbatim>\<open>cover_name\<close> and \<^verbatim>\<open>uri\<close>.
  Every field may be missing or null (\<open>None\<close>). Ratings are rationals: the store keeps
  doubles, and the queries only add, divide and compare them.
\<close>

record contributor =
  cover_name :: "string option"
  contributor_uri :: "string option"

record doc =
  name :: "string option"
  uri :: "string option"
  main_author :: contributor
  main_actor :: contributor
  global_rating :: "rat option"
  reviews_count :: "int option"

section \<open>Exceptions, messages and the observable state\<close>

text \<open>
  The string constants of the program are Cyrillic texts; they are kept as named
  constructors. \<open>TOO_LONG_QUERY_MSG\<close> is the argument of \<^verbatim>\<open>sys.exit\<close> in
  \<^verbatim>\<open>get_instance_queryset\<close>, \<open>NOTHING_FOUND_TEMPLATE\<close> the template string it returns
  when nothing matches, \<open>TESTS_NOT_IMPLEMENTED_MSG\<close> the text of the \<^verbatim>\<open>--test\<close> branch.
\<close>

datatype literal_text =
    NON_EMPTY_COL_ERROR_MSG
  | DROP_COL_SUCCESS_MSG
  | TOO_LONG_QUERY_MSG
  | NOTHING_FOUND_TEMPLATE
  | TESTS_NOT_IMPLEMENTED_MSG

text \<open>The argument of \<^verbatim>\<open>sys.exit\<close>: nothing, an integer status, or a text.\<close>

datatype exit_arg = ExitNone | ExitCode int | ExitText literal_text

text \<open>
  The exceptions the modelled code can see. \<open>InvalidURL\<close> is a subclass of
  \<open>ClientError\<close> in aiohttp, and every constructor but \<open>SystemExit\<close> is a subclass of
  \<open>Exception\<close>.
\<close>

datatype exn =
    SystemExit exit_arg
  | InvalidURL
  | ClientError
  | AttributeError
  | TypeError
  | ZeroDivisionError
  | BulkWriteError
  | OtherException

fun isinstance_InvalidURL :: "exn \<Rightarrow> bool" where
  "isinstance_InvalidURL InvalidURL = True"
| "isinstance_InvalidURL _ = False"

fun isinstance_ClientError :: "exn \<Rightarrow> bool" where
  "isinstance_ClientError InvalidURL = True"
| "isinstance_ClientError ClientError = True"
| "isinstance_ClientError _ = False"

fun isinstance_Exception :: "exn \<Rightarrow> bool" where
  "isinstance_Exception (SystemExit _) = False"
| "isinstance_Exception _ = True"

text \<open>
  The status with which the interpreter ends: 0 after a normal return and after
  \<^verbatim>\<open>sys.exit()\<close>, the integer given to \<^verbatim>\<open>sys.exit\<close>, and 1 after \<^verbatim>\<open>sys.exit\<close> with a
  text (printed to stderr) or after any other uncaught exception.
\<close>

fun exit_status :: "exn + 'a \<Rightarrow> int" where
  "exit_status (Inr _) = 0"
| "exit_status (Inl (SystemExit ExitNone)) = 0"
| "exit_status (Inl (SystemExit (ExitCode n))) = n"
| "exit_status (Inl (SystemExit (ExitText _))) = 1"
| "exit_status (Inl _) = 1"

text \<open>
  \<^verbatim>\<open>url_template.format(limit, page)\<close>: the template is fixed, so a URL built from it is
  the pair of numbers put into it.
\<close>

datatype url = url_template (limit: int) (page: int)

definition verification_url :: url where
  "verification_url = url_template 1 1"

text \<open>The records given to \<^verbatim>\<open>logger.info\<close> and \<^verbatim>\<open>logger.error\<close>, by call site.\<close>

datatype log_record =
    Info_inserted nat
  | Info_processed url
  | Error_invalid_url url exn
  | Error_connection url exn
  | Error_unexpected url exn
  | Error_verification exn

fun is_error_record :: "log_record \<Rightarrow> bool" where
  "is_error_record (Info_inserted _) = False"
| "is_error_record (Info_processed _) = False"
| "is_error_record _ = True"

text \<open>The calls that reach the collection of the store, in the order they are made.\<close>

datatype db_call =
    Estimated_document_count
  | Insert_many "doc list option"
  | Count_documents string string
  | Find string string
  | Drop

text \<open>What is written to the console, by call site (rendering is not modelled).\<close>

datatype console_event =
    Console_log literal_text
  | Console_log_dropped string
  | Console_log_load_time
  | Console_print_panels
  | Console_print_table "doc list" string
  | Rprint_empty literal_text string

record state =
  collection :: "doc list"
  db_calls :: "db_call list"
  requests :: "url list"
  tasks_created :: "url list"
  logged :: "log_record list"
  console :: "console_event list"

section \<open>The remote catalog and the store's regular expressions\<close>

text \<open>
  The decoded body of a response: a JSON object, of which the code reads \<^verbatim>\<open>count\<close>
  and \<^verbatim>\<open>results\<close> with \<^verbatim>\<open>page.get\<close> (\<open>None\<close> when the key is missing, null, or, for
  \<^verbatim>\<open>count\<close>, not a number), or some other JSON value, which has no \<^verbatim>\<open>get\<close>.
\<close>

datatype json_page =
    Json_object (count_field: "int option") (results_field: "doc list option")
  | Json_other

text \<open>
  The three ways in which \<^verbatim>\<open>session.get\<close> and \<^verbatim>\<open>response.json\<close> fail, as the handlers
  of \<^verbatim>\<open>fetch_and_insert\<close> tell them apart.
\<close>

datatype fetch_failure = Malformed_url | Transport_failure | Unexpected_failure

fun raised :: "fetch_failure \<Rightarrow> exn" where
  "raised Malformed_url = InvalidURL"
| "raised Transport_failure = ClientError"
| "raised Unexpected_failure = OtherException"

datatype response = Fails fetch_failure | Json json_page

text \<open>
  The world outside the program: what the \<open>n\<close>-th request of the run answers for a
  URL, which documents the store's case-insensitive \<^verbatim>\<open>$regex\<close> filter on a field
  accepts for a pattern, and, for the contents of the collection and a batch to be
  written, the position of the first document of the batch that the store rejects
  (\<open>None\<close> when it takes them all).
\<close>

record env =
  http :: "nat \<Rightarrow> url \<Rightarrow> response"
  regex :: "string \<Rightarrow> string \<Rightarrow> doc \<Rightarrow> bool"
  rejected :: "doc list \<Rightarrow> doc list \<Rightarrow> nat option"

type_synonym 'a outcome = "(exn + 'a) \<times> state"

section \<open>DBManager: the collection\<close>

definition estimated_document_count :: "state \<Rightarrow> nat outcome" where
  "estimated_document_count s =
     (Inr (length (collection s)), s\<lparr>db_calls := db_calls s @ [Estimated_document_count]\<rparr>)"

definition is_empty_collection :: "state \<Rightarrow> bool outcome" where
  "is_empty_collection s =
     (case estimated_document_count s of
        (Inl x, s') \<Rightarrow> (Inl x, s')
      | (Inr num_docs, s') \<Rightarrow> (Inr (num_docs = 0), s'))"

text \<open>\<^verbatim>\<open>full_name\<close> of \<^verbatim>\<open>client.test_database.test_collection\<close>.\<close>

definition full_name :: string where
  "full_name = ''test_database.test_collection''"

definition drop_collection :: "state \<Rightarrow> string outcome" where
  "drop_collection s =
     (Inr full_name, s\<lparr>collection := [], db_calls := db_calls s @ [Drop]\<rparr>)"

text \<open>
  \<^verbatim>\<open>insert_many\<close> of the driver raises \<^verbatim>\<open>TypeError\<close> for anything but a non-empty list.
  It writes the documents in their order; when the store rejects one, those before it
  stay in the collection and \<^verbatim>\<open>BulkWriteError\<close> is raised.
\<close>

definition insert_many :: "env \<Rightarrow> doc list option \<Rightarrow> state \<Rightarrow> nat outcome" where
  "insert_many e documents s =
     (let s' = s\<lparr>db_calls := db_calls s @ [Insert_many documents]\<rparr> in
      case documents of
        None \<Rightarrow> (Inl TypeError, s')
      | Some [] \<Rightarrow> (Inl TypeError, s')
      | Some ds \<Rightarrow>
          (case rejected e (collection s') ds of
             None \<Rightarrow> (Inr (length ds), s'\<lparr>collection := collection s' @ ds\<rparr>)
           | Some i \<Rightarrow>
               if i < length ds
               then (Inl BulkWriteError, s'\<lparr>collection := collection s' @ take i ds\<rparr>)
               else (Inr (length ds), s'\<lparr>collection := collection s' @ ds\<rparr>)))"

definition insert_docs :: "env \<Rightarrow> doc list option \<Rightarrow> state \<Rightarrow> unit outcome" where
  "insert_docs e documents s =
     (case insert_many e documents s of
        (Inl x, s') \<Rightarrow> (Inl x, s')
      | (Inr n, s') \<Rightarrow> (Inr (), s'\<lparr>logged := logged s' @ [Info_inserted n]\<rparr>))"

section \<open>Fetcher\<close>

text \<open>\<^verbatim>\<open>session.get(url)\<close> followed by \<^verbatim>\<open>response.json()\<close>.\<close>

definition session_get_json :: "env \<Rightarrow> url \<Rightarrow> state \<Rightarrow> json_page outcome" where
  "session_get_json e u s =
     (case http e (length (requests s)) u of
        Fails f \<Rightarrow> Inl (raised f)
      | Json p \<Rightarrow> Inr p,
      s\<lparr>requests := requests s @ [u]\<rparr>)"

text \<open>
  \<^verbatim>\<open>round(count / chunk_size)\<close> for integers: the true division raises on a zero
  divisor and \<^verbatim>\<open>round\<close> takes the nearest integer, a half going to the even neighbour.
  The quotient is taken exactly; the double that Python rounds lies on the same side
  of every half-integer as the exact quotient as long as the count is below \<open>2 ^ 52\<close>.
\<close>

definition round_half_even :: "int \<Rightarrow> int \<Rightarrow> int" where
  "round_half_even n d =
     (let q = n div d; r = n mod d in
      if 2 * \<bar>r\<bar> < \<bar>d\<bar> then q
      else if 2 * \<bar>r\<bar> > \<bar>d\<bar> then q + 1
      else if even q then q else q + 1)"

definition round_true_div :: "int option \<Rightarrow> int \<Rightarrow> exn + int" where
  "round_true_div c chunk_size =
     (case c of
        None \<Rightarrow> Inl TypeError
      | Some n \<Rightarrow> if chunk_size = 0 then Inl ZeroDivisionError
                  else Inr (round_half_even n chunk_size))"

definition page_get_count :: "json_page \<Rightarrow> exn + int option" where
  "page_get_count p = (case p of Json_other \<Rightarrow> Inl AttributeError | Json_object c r \<Rightarrow> Inr c)"

definition page_get_results :: "json_page \<Rightarrow> exn + doc list option" where
  "page_get_results p = (case p of Json_other \<Rightarrow> Inl AttributeError | Json_object c r \<Rightarrow> Inr r)"

text \<open>The body of the \<^verbatim>\<open>try\<close> of \<^verbatim>\<open>get_total_pages\<close>.\<close>

definition get_total_pages_try :: "env \<Rightarrow> int \<Rightarrow> state \<Rightarrow> int outcome" where
  "get_total_pages_try e chunk_size s =
     (case session_get_json e verification_url s of
        (Inl x, s') \<Rightarrow> (Inl x, s')
      | (Inr p, s') \<Rightarrow>
          (case page_get_count p of
             Inl x \<Rightarrow> (Inl x, s')
           | Inr c \<Rightarrow>
               (case round_true_div c chunk_size of
                  Inl x \<Rightarrow> (Inl x, s')
                | Inr n \<Rightarrow> (Inr (n + 1), s'))))"

text \<open>\<^verbatim>\<open>except Exception\<close>: log the error and \<^verbatim>\<open>sys.exit(1)\<close>.\<close>

definition get_total_pages :: "env \<Rightarrow> int \<Rightarrow> state \<Rightarrow> int outcome" where
  "get_total_pages e chunk_size s =
     (case get_total_pages_try e chunk_size s of
        (Inr n, s') \<Rightarrow> (Inr n, s')
      | (Inl x, s') \<Rightarrow>
          if isinstance_Exception x
          then (Inl (SystemExit (ExitCode 1)), s'\<lparr>logged := logged s' @ [Error_verification x]\<rparr>)
          else (Inl x, s'))"

text \<open>The body of the \<^verbatim>\<open>try\<close> of \<^verbatim>\<open>fetch_and_insert\<close>.\<close>

definition fetch_and_insert_try :: "env \<Rightarrow> url \<Rightarrow> state \<Rightarrow> unit outcome" where
  "fetch_and_insert_try e u s =
     (case session_get_json e u s of
        (Inl x, s') \<Rightarrow> (Inl x, s')
      | (Inr p, s') \<Rightarrow>
          (case page_get_results p of
             Inl x \<Rightarrow> (Inl x, s')
           | Inr content \<Rightarrow>
               (case insert_docs e content s' of
                  (Inl x, s'') \<Rightarrow> (Inl x, s'')
                | (Inr _, s'') \<Rightarrow> (Inr (), s''\<lparr>logged := logged s'' @ [Info_processed u]\<rparr>))))"

text \<open>The three handlers, in the order of the source.\<close>

definition fetch_and_insert :: "env \<Rightarrow> url \<Rightarrow> state \<Rightarrow> unit outcome" where
  "fetch_and_insert e u s =
     (case fetch_and_insert_try e u s of
        (Inr a, s') \<Rightarrow> (Inr a, s')
      | (Inl x, s') \<Rightarrow>
          if isinstance_InvalidURL x
          then (Inr (), s'\<lparr>logged := logged s' @ [Error_invalid_url u x]\<rparr>)
          else if isinstance_ClientError x
          then (Inr (), s'\<lparr>logged := logged s' @ [Error_connection u x]\<rparr>)
          else if isinstance_Exception x
          then (Inr (), s'\<lparr>logged := logged s' @ [Error_unexpected u x]\<rparr>)
          else (Inl x, s'))"

text \<open>
  The loop of \<^verbatim>\<open>create_tasks\<close> over \<^verbatim>\<open>range(1, count)\<close>: each page number becomes a task
  for its URL.
\<close>

fun create_task_loop :: "int \<Rightarrow> int list \<Rightarrow> url list \<Rightarrow> state \<Rightarrow> url list \<times> state" where
  "create_task_loop chunk_size [] task_list s = (task_list, s)"
| "create_task_loop chunk_size (page_number # rest) task_list s =
     (let u = url_template chunk_size page_number in
      create_task_loop chunk_size rest (task_list @ [u])
        (s\<lparr>tasks_created := tasks_created s @ [u]\<rparr>))"

text \<open>\<^verbatim>\<open>range(start, stop)\<close> on integers: empty when \<open>stop \<le> start\<close>.\<close>

definition range_int :: "int \<Rightarrow> int \<Rightarrow> int list" where
  "range_int start stop = [start .. stop - 1]"

definition create_tasks :: "env \<Rightarrow> int \<Rightarrow> state \<Rightarrow> url list outcome" where
  "create_tasks e chunk_size s =
     (case get_total_pages e chunk_size s of
        (Inl x, s') \<Rightarrow> (Inl x, s')
      | (Inr n, s') \<Rightarrow>
          (case create_task_loop chunk_size (range_int 1 n) [] s' of
             (task_list, s'') \<Rightarrow> (Inr task_list, s'')))"

text \<open>
  \<^verbatim>\<open>asyncio.gather\<close> over the tasks. The tasks share nothing but the store and the log,
  and each runs \<^verbatim>\<open>fetch_and_insert\<close> once; they are run here in the order of the list.
\<close>

fun gather :: "env \<Rightarrow> url list \<Rightarrow> state \<Rightarrow> unit outcome" where
  "gather e [] s = (Inr (), s)"
| "gather e (u # us) s =
     (case fetch_and_insert e u s of
        (Inl x, s') \<Rightarrow> (Inl x, s')
      | (Inr _, s') \<Rightarrow> gather e us s')"

definition execute_tasks :: "env \<Rightarrow> int \<Rightarrow> state \<Rightarrow> unit outcome" where
  "execute_tasks e chunk_size s =
     (case create_tasks e chunk_size s of
        (Inl x, s') \<Rightarrow> (Inl x, s')
      | (Inr task_list, s') \<Rightarrow> gather e task_list s')"

section \<open>DBManager: the aggregation pipelines\<close>

text \<open>
  \<^verbatim>\<open>$group\<close>: one group for each value of the key, with the documents that have it.
  The groups come in the order in which their keys first appear and keep the order of
  the collection inside (the store promises no order here).
\<close>

function group_by :: "('a \<Rightarrow> 'k) \<Rightarrow> 'a list \<Rightarrow> ('k \<times> 'a list) list" where
  "group_by key [] = []"
| "group_by key (x # xs) =
     (key x, x # filter (\<lambda>y. key y = key x) xs)
       # group_by key (filter (\<lambda>y. key y \<noteq> key x) xs)"
  by pat_completeness auto
termination
  by (relation "measure (\<lambda>(key, xs). length xs)") (auto simp: less_Suc_eq_le)

definition group_stage :: "('a \<Rightarrow> 'k) \<Rightarrow> ('k \<Rightarrow> 'a list \<Rightarrow> 'r) \<Rightarrow> 'a list \<Rightarrow> 'r list" where
  "group_stage key row ds = map (\<lambda>(k, members). row k members) (group_by key ds)"

text \<open>
  \<^verbatim>\<open>$sort\<close> with direction \<open>-1\<close>, and \<^verbatim>\<open>.sort(field, pymongo.DESCENDING)\<close>: descending
  by the key, rows with equal keys staying in the order they had. A missing or null
  key (\<open>None\<close>) is below every value.
\<close>

fun insert_desc :: "('r \<Rightarrow> 'v::linorder) \<Rightarrow> 'r \<Rightarrow> 'r list \<Rightarrow> 'r list" where
  "insert_desc f x [] = [x]"
| "insert_desc f x (y # ys) = (if f x < f y then y # insert_desc f x ys else x # y # ys)"

definition sort_stage_desc :: "('r \<Rightarrow> 'v::linorder) \<Rightarrow> 'r list \<Rightarrow> 'r list" where
  "sort_stage_desc f rows = foldr (insert_desc f) rows []"

definition skip_stage :: "nat \<Rightarrow> 'r list \<Rightarrow> 'r list" where
  "skip_stage n rows = drop n rows"

definition limit_stage :: "nat \<Rightarrow> 'r list \<Rightarrow> 'r list" where
  "limit_stage n rows = take n rows"

definition match_stage :: "('r \<Rightarrow> bool) \<Rightarrow> 'r list \<Rightarrow> 'r list" where
  "match_stage p rows = filter p rows"

text \<open>The accumulators \<^verbatim>\<open>{'$sum': 1}\<close>, \<^verbatim>\<open>$first\<close> and \<^verbatim>\<open>$avg\<close> (which skips missing values).\<close>

definition sum_1 :: "'a list \<Rightarrow> nat" where
  "sum_1 members = length members"

definition first_acc :: "('a \<Rightarrow> 'b option) \<Rightarrow> 'a list \<Rightarrow> 'b option" where
  "first_acc f members = (case members of [] \<Rightarrow> None | d # _ \<Rightarrow> f d)"

definition avg_acc :: "('a \<Rightarrow> rat option) \<Rightarrow> 'a list \<Rightarrow> rat option" where
  "avg_acc f members =
     (let vs = concat (map (\<lambda>d. case f d of None \<Rightarrow> [] | Some v \<Rightarrow> [v]) members) in
      if vs = [] then None else Some (sum_list vs / of_nat (length vs)))"

text \<open>
  The rows of the two counting pipelines: \<^verbatim>\<open>_id\<close>, the count (\<^verbatim>\<open>num_books\<close> for authors,
  \<^verbatim>\<open>books_narrated\<close> for narrators) and \<^verbatim>\<open>uri\<close>.
\<close>

record count_row =
  count_id :: "string option"
  num_books :: nat
  count_uri :: "string option"

text \<open>
  The rows of the two averaging pipelines: \<^verbatim>\<open>_id\<close>, \<^verbatim>\<open>sum_books\<close>, the average
  (\<^verbatim>\<open>avg_rating\<close> or \<^verbatim>\<open>avg_reviews\<close>) and \<^verbatim>\<open>uri\<close>.
\<close>

record avg_row =
  avg_id :: "string option"
  sum_books :: nat
  avg_value :: "rat option"
  avg_uri :: "string option"

text \<open>
  The pipeline shared by \<^verbatim>\<open>find_most_prolific_author\<close> and
  \<^verbatim>\<open>find_most_prolific_narrator\<close>, which differ in the contributor they group by.
\<close>

definition prolific_groups :: "(doc \<Rightarrow> contributor) \<Rightarrow> doc list \<Rightarrow> count_row list" where
  "prolific_groups who ds =
     group_stage (\<lambda>d. cover_name (who d))
       (\<lambda>k members. \<lparr>count_id = k, num_books = sum_1 members,
                      count_uri = first_acc (\<lambda>d. contributor_uri (who d)) members\<rparr>) ds"

definition prolific_pipeline :: "(doc \<Rightarrow> contributor) \<Rightarrow> doc list \<Rightarrow> count_row list" where
  "prolific_pipeline who ds =
     limit_stage 1 (skip_stage 1 (sort_stage_desc num_books (prolific_groups who ds)))"

definition find_most_prolific_author :: "doc list \<Rightarrow> count_row list" where
  "find_most_prolific_author ds = prolific_pipeline main_author ds"

definition find_most_prolific_narrator :: "doc list \<Rightarrow> count_row list" where
  "find_most_prolific_narrator ds = prolific_pipeline main_actor ds"

text \<open>
  The pipeline shared by \<^verbatim>\<open>find_highest_AVG_rated_author\<close> and
  \<^verbatim>\<open>find_highest_AVG_reviewed_author\<close>, which differ in the field they average.
\<close>

definition avg_groups :: "(doc \<Rightarrow> rat option) \<Rightarrow> doc list \<Rightarrow> avg_row list" where
  "avg_groups field ds =
     group_stage (\<lambda>d. cover_name (main_author d))
       (\<lambda>k members. \<lparr>avg_id = k, sum_books = sum_1 members,
                      avg_value = avg_acc field members,
                      avg_uri = first_acc (\<lambda>d. contributor_uri (main_author d)) members\<rparr>) ds"

definition avg_pipeline :: "(doc \<Rightarrow> rat option) \<Rightarrow> doc list \<Rightarrow> avg_row list" where
  "avg_pipeline field ds =
     limit_stage 1
       (sort_stage_desc avg_value (match_stage (\<lambda>g. sum_books g \<ge> 5) (avg_groups field ds)))"

definition find_highest_AVG_rated_author :: "doc list \<Rightarrow> avg_row list" where
  "find_highest_AVG_rated_author ds = avg_pipeline global_rating ds"

definition find_highest_AVG_reviewed_author :: "doc list \<Rightarrow> avg_row list" where
  "find_highest_AVG_reviewed_author ds =
     avg_pipeline (\<lambda>d. map_option of_int (reviews_count d)) ds"

text \<open>The two \<^verbatim>\<open>find\<close> queries of the panel, with their projections.\<close>

definition project_book :: "bool \<Rightarrow> bool \<Rightarrow> bool \<Rightarrow> doc \<Rightarrow> doc" where
  "project_book with_author with_rating with_reviews d =
     \<lparr>name = name d, uri = uri d,
      main_author = \<lparr>cover_name = (if with_author then cover_name (main_author d) else None),
                     contributor_uri = None\<rparr>,
      main_actor = \<lparr>cover_name = cover_name (main_actor d), contributor_uri = None\<rparr>,
      global_rating = (if with_rating then global_rating d else None),
      reviews_count = (if with_reviews then reviews_count d else None)\<rparr>"

definition find_highest_rated_book :: "doc list \<Rightarrow> doc list" where
  "find_highest_rated_book ds =
     map (project_book True True False) (limit_stage 1 (sort_stage_desc global_rating ds))"

definition find_most_reviewed_book :: "doc list \<Rightarrow> doc list" where
  "find_most_reviewed_book ds =
     map (project_book True False True) (limit_stage 1 (sort_stage_desc reviews_count ds))"

definition find_books_total :: "state \<Rightarrow> nat outcome" where
  "find_books_total s = estimated_document_count s"

section \<open>DBManager and table: looking up an author or a book\<close>

definition count_docs :: "env \<Rightarrow> string \<Rightarrow> string \<Rightarrow> state \<Rightarrow> nat outcome" where
  "count_docs e instance nm s =
     (Inr (length (filter (regex e instance nm) (collection s))),
      s\<lparr>db_calls := db_calls s @ [Count_documents instance nm]\<rparr>)"

text \<open>
  The projection of \<^verbatim>\<open>find_instance_stats\<close> keeps \<^verbatim>\<open>name\<close>, \<^verbatim>\<open>uri\<close>,
  \<^verbatim>\<open>main_actor.cover_name\<close> and \<^verbatim>\<open>reviews_count\<close>.
\<close>

definition find_instance_stats :: "env \<Rightarrow> string \<Rightarrow> string \<Rightarrow> state \<Rightarrow> doc list outcome" where
  "find_instance_stats e instance nm s =
     (Inr (map (project_book False False True)
             (sort_stage_desc reviews_count (filter (regex e instance nm) (collection s)))),
      s\<lparr>db_calls := db_calls s @ [Find instance nm]\<rparr>)"

text \<open>\<^verbatim>\<open>sep.join(words)\<close>.\<close>

fun join :: "string \<Rightarrow> string list \<Rightarrow> string" where
  "join sep [] = []"
| "join sep [w] = w"
| "join sep (w # v # ws) = w @ sep @ join sep (v # ws)"

text \<open>
  \<^verbatim>\<open>itertools.permutations(iterable, r)\<close>: the arrangements of \<open>r\<close> elements taken at
  different positions, in the lexicographic order of the positions; none when \<open>r\<close>
  exceeds the length. \<open>selections\<close> pairs each element with the others.
\<close>

fun selections :: "'a list \<Rightarrow> ('a \<times> 'a list) list" where
  "selections [] = []"
| "selections (x # xs) = (x, xs) # map (\<lambda>(y, ys). (y, x # ys)) (selections xs)"

fun permutations :: "'a list \<Rightarrow> nat \<Rightarrow> 'a list list" where
  "permutations xs 0 = [[]]"
| "permutations xs (Suc r) =
     concat (map (\<lambda>(y, ys). map ((#) y) (permutations ys r)) (selections xs))"

text \<open>
  The fragment for an optional patronymic, \<^verbatim>\<open>[\<close>\<open>\<alpha>\<close>\<^verbatim>\<open>-\<close>\<open>\<omega>\<close>\<^verbatim>\<open>a-z]* ?\<close> with the first and the
  last small Cyrillic letter for \<open>\<alpha>\<close> and \<open>\<omega>\<close>. Strings are kept as their UTF-8 bytes,
  which \<^verbatim>\<open>join\<close> and equality treat as Python treats the code points.
\<close>

definition optional_patronymic :: string where
  "optional_patronymic =
     ''['' @ [char_of (208::nat), char_of (176::nat)] @ ''-''
       @ [char_of (209::nat), char_of (143::nat)] @ ''a-z]* ?''"

text \<open>
  What \<^verbatim>\<open>get_instance_queryset\<close> puts first in its result: the cursor of the search, or
  the template of the message that nothing was found.
\<close>

datatype queryset = Cursor "doc list" | Template literal_text

text \<open>The \<^verbatim>\<open>for\<close> loop of \<^verbatim>\<open>get_instance_queryset\<close>; \<open>None\<close> when it runs to its end.\<close>

fun probe_loop :: "env \<Rightarrow> string \<Rightarrow> string list list \<Rightarrow> state \<Rightarrow> doc list option outcome" where
  "probe_loop e instance [] s = (Inr None, s)"
| "probe_loop e instance (name_combination # rest) s =
     (case count_docs e instance (join '' '' name_combination) s of
        (Inl x, s') \<Rightarrow> (Inl x, s')
      | (Inr num_docs, s') \<Rightarrow>
          if num_docs > 0
          then (case find_instance_stats e instance (join '' '' name_combination) s' of
                  (Inl x, s'') \<Rightarrow> (Inl x, s'')
                | (Inr async_queryset, s'') \<Rightarrow> (Inr (Some async_queryset), s''))
          else probe_loop e instance rest s')"

definition get_instance_queryset ::
  "env \<Rightarrow> string \<Rightarrow> string list \<Rightarrow> state \<Rightarrow> (queryset \<times> string) outcome" where
  "get_instance_queryset e instance args s =
     (let query_string = join '' '' args;
          len_args = length args
      in if len_args > 9 then (Inl (SystemExit (ExitText TOO_LONG_QUERY_MSG)), s)
         else
           let args' = (if instance = ''author'' \<and> len_args = 2
                        then args @ [optional_patronymic] else args)
           in case probe_loop e instance (permutations args' len_args) s of
                (Inl x, s') \<Rightarrow> (Inl x, s')
              | (Inr (Some async_queryset), s') \<Rightarrow> (Inr (Cursor async_queryset, query_string), s')
              | (Inr None, s') \<Rightarrow> (Inr (Template NOTHING_FOUND_TEMPLATE, query_string), s'))"

text \<open>
  \<^verbatim>\<open>create_rich_table\<close>, without the layout: a text in place of a cursor is shown and
  the program left with \<^verbatim>\<open>sys.exit()\<close>; of a cursor the first ten rows are taken.
\<close>

definition create_rich_table :: "queryset \<Rightarrow> string \<Rightarrow> state \<Rightarrow> (doc list \<times> string) outcome" where
  "create_rich_table async_queryset header s =
     (case async_queryset of
        Template t \<Rightarrow>
          (Inl (SystemExit ExitNone), s\<lparr>console := console s @ [Rprint_empty t header]\<rparr>)
      | Cursor rows \<Rightarrow> (Inr (take 10 rows, header), s))"

section \<open>PanelQueryHandler\<close>

datatype row = Book_row doc | Count_row count_row | Avg_row avg_row

text \<open>
  What a panel query gives when awaited (a number or a cursor), and what the handler
  keeps in \<^verbatim>\<open>results\<close> (such a value, or a row taken from a cursor).
\<close>

datatype panel_value = Number nat | Rows "row list" | Row row

type_synonym query = "state \<Rightarrow> panel_value outcome"

definition panel_coroutine_queries :: "query list" where
  "panel_coroutine_queries =
     [\<lambda>s. (Inr (Rows (map Book_row (find_highest_rated_book (collection s)))), s),
      \<lambda>s. (Inr (Rows (map Book_row (find_most_reviewed_book (collection s)))), s),
      \<lambda>s. (Inr (Rows (map Count_row (find_most_prolific_author (collection s)))), s),
      \<lambda>s. (Inr (Rows (map Count_row (find_most_prolific_narrator (collection s)))), s),
      \<lambda>s. (Inr (Rows (map Avg_row (find_highest_AVG_rated_author (collection s)))), s),
      \<lambda>s. (Inr (Rows (map Avg_row (find_highest_AVG_reviewed_author (collection s)))), s)]"

definition panel_numeric_queries :: "query list" where
  "panel_numeric_queries =
     [\<lambda>s. case find_books_total s of
             (Inl x, s') \<Rightarrow> (Inl x, s')
           | (Inr n, s') \<Rightarrow> (Inr (Number n), s')]"

record PanelQueryHandler =
  results :: "panel_value list"

definition PanelQueryHandler_init :: PanelQueryHandler where
  "PanelQueryHandler_init = \<lparr>results = []\<rparr>"

type_synonym handler_outcome = "(exn + unit) \<times> PanelQueryHandler \<times> state"

text \<open>\<^verbatim>\<open>_await_numeric_query\<close> and \<^verbatim>\<open>_await_coroutine_query\<close> (a name cannot begin with \<open>_\<close> here).\<close>

definition private_await_numeric_query :: "query \<Rightarrow> PanelQueryHandler \<Rightarrow> state \<Rightarrow> handler_outcome" where
  "private_await_numeric_query q h s =
     (case q s of
        (Inl x, s') \<Rightarrow> (Inl x, h, s')
      | (Inr result, s') \<Rightarrow> (Inr (), h\<lparr>results := results h @ [result]\<rparr>, s'))"

definition private_await_coroutine_query :: "query \<Rightarrow> PanelQueryHandler \<Rightarrow> state \<Rightarrow> handler_outcome" where
  "private_await_coroutine_query q h s =
     (case q s of
        (Inl x, s') \<Rightarrow> (Inl x, h, s')
      | (Inr (Rows cor), s') \<Rightarrow> (Inr (), h\<lparr>results := results h @ map Row (take 1 cor)\<rparr>, s')
      | (Inr _, s') \<Rightarrow> (Inl AttributeError, h, s'))"

text \<open>
  The attributes of a \<^verbatim>\<open>PanelQueryHandler\<close>, under the names the class and its
  \<^verbatim>\<open>__init__\<close> give them: data, methods without a parameter, and the two methods that
  take a query.
\<close>

datatype attribute =
    Data_attribute
  | Nullary_method
  | Query_method "query \<Rightarrow> PanelQueryHandler \<Rightarrow> state \<Rightarrow> handler_outcome"

definition PanelQueryHandler_attributes :: "(string \<times> attribute) list" where
  "PanelQueryHandler_attributes =
     [(''db_manager'', Data_attribute),
      (''results'', Data_attribute),
      (''await_all_queries'', Nullary_method),
      (''_await_numeric_query'', Query_method private_await_numeric_query),
      (''_await_all_numeric_queries'', Nullary_method),
      (''_await_coroutine_query'', Query_method private_await_coroutine_query),
      (''_await_all_coroutine_queries'', Nullary_method)]"

text \<open>
  \<^verbatim>\<open>self.<name>(query)\<close>: the attribute is looked up first (\<^verbatim>\<open>AttributeError\<close> when there
  is none of that name) and then called with the query.
\<close>

definition call_self :: "string \<Rightarrow> query \<Rightarrow> PanelQueryHandler \<Rightarrow> state \<Rightarrow> handler_outcome" where
  "call_self nm q h s =
     (case map_of PanelQueryHandler_attributes nm of
        None \<Rightarrow> (Inl AttributeError, h, s)
      | Some (Query_method m) \<Rightarrow> m q h s
      | Some _ \<Rightarrow> (Inl TypeError, h, s))"

text \<open>A \<^verbatim>\<open>for query in ...: await self.<name>(query)\<close> loop.\<close>

fun for_queries :: "string \<Rightarrow> query list \<Rightarrow> PanelQueryHandler \<Rightarrow> state \<Rightarrow> handler_outcome" where
  "for_queries nm [] h s = (Inr (), h, s)"
| "for_queries nm (q # qs) h s =
     (case call_self nm q h s of
        (Inl x, h', s') \<Rightarrow> (Inl x, h', s')
      | (Inr _, h', s') \<Rightarrow> for_queries nm qs h' s')"

definition private_await_all_numeric_queries :: "PanelQueryHandler \<Rightarrow> state \<Rightarrow> handler_outcome" where
  "private_await_all_numeric_queries h s =
     for_queries ''_await_numeric_query'' panel_numeric_queries h s"

definition private_await_all_coroutine_queries :: "PanelQueryHandler \<Rightarrow> state \<Rightarrow> handler_outcome" where
  "private_await_all_coroutine_queries h s =
     for_queries ''await_coroutine_query'' panel_coroutine_queries h s"

definition await_all_queries :: "PanelQueryHandler \<Rightarrow> state \<Rightarrow> handler_outcome" where
  "await_all_queries h s =
     (case private_await_all_numeric_queries h s of
        (Inl x, h', s') \<Rightarrow> (Inl x, h', s')
      | (Inr _, h', s') \<Rightarrow> private_await_all_coroutine_queries h' s')"

section \<open>The entry point\<close>

record console_args =
  arg_load :: bool
  arg_drop_collection :: bool
  arg_stats :: bool
  arg_author :: "string list option"
  arg_book :: "string list option"
  arg_test :: bool

definition truthy :: "string list option \<Rightarrow> bool" where
  "truthy a = (case a of None \<Rightarrow> False | Some ws \<Rightarrow> ws \<noteq> [])"

text \<open>\<^verbatim>\<open>INSTANCE_DB_MAPPING.get(mode, "author")\<close>.\<close>

definition INSTANCE_DB_MAPPING_get :: "string \<Rightarrow> string" where
  "INSTANCE_DB_MAPPING_get mode =
     (case map_of [(''author'', ''main_author.cover_name''), (''book'', ''name'')] mode of
        Some field \<Rightarrow> field
      | None \<Rightarrow> ''author'')"

text \<open>\<^verbatim>\<open>fetcher = Fetcher(db_manager, 1000)\<close>.\<close>

definition fetcher_chunk_size :: int where
  "fetcher_chunk_size = 1000"

text \<open>
  \<^verbatim>\<open>main\<close>, one branch for each option. The panels of the \<^verbatim>\<open>--stats\<close> branch and the
  table of the lookup branch are printed as they are, without their layout.
\<close>

definition main :: "env \<Rightarrow> console_args \<Rightarrow> state \<Rightarrow> unit outcome" where
  "main e a s =
     (if arg_load a then
        (case is_empty_collection s of
           (Inl x, s1) \<Rightarrow> (Inl x, s1)
         | (Inr is_empty, s1) \<Rightarrow>
             if \<not> is_empty
             then (Inl (SystemExit (ExitCode 1)),
                   s1\<lparr>console := console s1 @ [Console_log NON_EMPTY_COL_ERROR_MSG]\<rparr>)
             else (case execute_tasks e fetcher_chunk_size s1 of
                     (Inl x, s2) \<Rightarrow> (Inl x, s2)
                   | (Inr _, s2) \<Rightarrow>
                       (Inr (), s2\<lparr>console := console s2 @ [Console_log_load_time]\<rparr>)))
      else if arg_drop_collection a then
        (case drop_collection s of
           (Inl x, s1) \<Rightarrow> (Inl x, s1)
         | (Inr col_name, s1) \<Rightarrow>
             (Inr (), s1\<lparr>console := console s1 @ [Console_log_dropped col_name]\<rparr>))
      else if arg_stats a then
        (case await_all_queries PanelQueryHandler_init s of
           (Inl x, h, s1) \<Rightarrow> (Inl x, s1)
         | (Inr _, h, s1) \<Rightarrow>
             (Inr (), s1\<lparr>console := console s1 @ [Console_print_panels]\<rparr>))
      else if truthy (if truthy (arg_author a) then arg_author a else arg_book a) then
        (let instance_args = the (if truthy (arg_author a) then arg_author a else arg_book a);
             mode = (if truthy (arg_author a) then ''author'' else ''book'');
             instance = INSTANCE_DB_MAPPING_get mode
         in case get_instance_queryset e instance instance_args s of
              (Inl x, s1) \<Rightarrow> (Inl x, s1)
            | (Inr (async_queryset, header), s1) \<Rightarrow>
                (case create_rich_table async_queryset header s1 of
                   (Inl x, s2) \<Rightarrow> (Inl x, s2)
                 | (Inr (rows, title), s2) \<Rightarrow>
                     (Inr (), s2\<lparr>console := console s2 @ [Console_print_table rows title]\<rparr>)))
      else if arg_test a then
        (Inr (), s\<lparr>console := console s @ [Console_log TESTS_NOT_IMPLEMENTED_MSG]\<rparr>)
      else (Inr (), s))"

section \<open>Sample data\<close>

text \<open>A book with an author, a narrator, a rating and a number of reviews.\<close>

definition book_of :: "string \<Rightarrow> string \<Rightarrow> rat \<Rightarrow> int \<Rightarrow> doc" where
  "book_of author narrator rating reviews =
     \<lparr>name = Some ''book'', uri = Some ''/book'',
      main_author = \<lparr>cover_name = Some author, contributor_uri = Some (''/'' @ author)\<rparr>,
      main_actor = \<lparr>cover_name = Some narrator, contributor_uri = Some (''/'' @ narrator)\<rparr>,
      global_rating = Some rating, reviews_count = Some reviews\<rparr>"

text \<open>The state in which a run starts on a collection.\<close>

definition start_with :: "doc list \<Rightarrow> state" where
  "start_with ds =
     \<lparr>collection = ds, db_calls = [], requests = [], tasks_created = [], logged = [],
      console = []\<rparr>"

text \<open>No network and a store in which no pattern matches.\<close>

definition offline :: env where
  "offline =
     \<lparr>http = (\<lambda>n u. Fails Transport_failure), regex = (\<lambda>field pattern d. False),
      rejected = (\<lambda>stored batch. None)\<rparr>"

text \<open>A catalog of 2500 items, every page of which holds one book.\<close>

definition catalog_2500 :: env where
  "catalog_2500 =
     \<lparr>http = (\<lambda>n u. Json (Json_object (Some 2500) (Some [book_of ''a'' ''n'' 4 7]))),
      regex = (\<lambda>field pattern d. False), rejected = (\<lambda>stored batch. None)\<rparr>"

definition no_args :: console_args where
  "no_args =
     \<lparr>arg_load = False, arg_drop_collection = False, arg_stats = False, arg_author = None,
      arg_book = None, arg_test = False\<rparr>"

text \<open>
  Six books: three authors with three, two and one book, and three narrators with
  three, two and one book.
\<close>

definition prolific_shelf :: "doc list" where
  "prolific_shelf =
     [book_of ''kp'' ''anon'' 3 1, book_of ''a'' ''x'' 4 2, book_of ''kp'' ''anon'' 3 1,
      book_of ''b'' ''anon'' 5 9, book_of ''a'' ''x'' 4 2, book_of ''kp'' ''y'' 3 1]"


text \<open>
  A catalog whose pages hold two books, and a store that takes the first document of
  a batch and rejects the second.
\<close>

definition second_rejected :: env where
  "second_rejected =
     \<lparr>http = (\<lambda>n u. Json (Json_object (Some 2)
                 (Some [book_of ''a'' ''n'' 4 7, book_of ''b'' ''n'' 3 5]))),
      regex = (\<lambda>field pattern d. False), rejected = (\<lambda>stored batch. Some 1)\<rparr>"

text \<open>A query of ten words.\<close>

definition ten_words :: "string list" where
  "ten_words = [''a'', ''b'', ''c'', ''d'', ''e'', ''f'', ''g'', ''h'', ''i'', ''j'']"







section \<open>The entry point refuses to load into a collection that has documents\<close>

text \<open>
  Claim C1. Whenever the collection holds at least one document, the \<^verbatim>\<open>--load\<close> branch
  of \<^verbatim>\<open>main\<close> writes the message about the non-empty collection to the console and
  leaves with \<^verbatim>\<open>sys.exit(1)\<close>. The only call that reached the store is the count, so
  \<^verbatim>\<open>insert_docs\<close> was not called; the collection is what it was, no request was sent and
  no task was created.
\<close>

theorem load_into_non_empty_collection_is_refused:
  assumes "arg_load a" and "0 < length (collection s)"
  shows "main e a s =
           (Inl (SystemExit (ExitCode 1)),
            s\<lparr>db_calls := db_calls s @ [Estimated_document_count],
              console := console s @ [Console_log NON_EMPTY_COL_ERROR_MSG]\<rparr>)
         \<and> exit_status (fst (main e a s)) \<noteq> 0
         \<and> collection (snd (main e a s)) = collection s
         \<and> db_calls (snd (main e a s)) = db_calls s @ [Estimated_document_count]
         \<and> requests (snd (main e a s)) = requests s
         \<and> tasks_created (snd (main e a s)) = tasks_created s"
proof -
  have "main e a s =
          (Inl (SystemExit (ExitCode 1)),
           s\<lparr>db_calls := db_calls s @ [Estimated_document_count],
             console := console s @ [Console_log NON_EMPTY_COL_ERROR_MSG]\<rparr>)"
    using assms by (simp add: main_def is_empty_collection_def estimated_document_count_def)
  then show ?thesis by simp
qed

theorem load_into_non_empty_collection_is_refused_witness:
  "arg_load (no_args\<lparr>arg_load := True\<rparr>)
   \<and> 0 < length (collection (start_with [book_of ''a'' ''n'' 4 7]))
   \<and> fst (main catalog_2500 (no_args\<lparr>arg_load := True\<rparr>) (start_with [book_of ''a'' ''n'' 4 7]))
       = Inl (SystemExit (ExitCode 1))
   \<and> collection (snd (main catalog_2500 (no_args\<lparr>arg_load := True\<rparr>)
         (start_with [book_of ''a'' ''n'' 4 7]))) = [book_of ''a'' ''n'' 4 7]
   \<and> db_calls (snd (main catalog_2500 (no_args\<lparr>arg_load := True\<rparr>)
         (start_with [book_of ''a'' ''n'' 4 7]))) = [Estimated_document_count]"
  using load_into_non_empty_collection_is_refused
          [of "no_args\<lparr>arg_load := True\<rparr>" "start_with [book_of ''a'' ''n'' 4 7]" catalog_2500]
  by (simp add: no_args_def start_with_def)

section \<open>Facts about the fetcher\<close>

lemma raised_is_Exception: "isinstance_Exception (raised f)"
  by (cases f) simp_all

lemma fetch_and_insert_try_raises_Exception:
  "fst (fetch_and_insert_try e u s) = Inl x \<Longrightarrow> isinstance_Exception x"
  by (auto simp: fetch_and_insert_try_def session_get_json_def page_get_results_def
        insert_docs_def insert_many_def Let_def raised_is_Exception
      split: response.splits json_page.splits option.splits list.splits if_splits)

lemma fetch_and_insert_returns: "fst (fetch_and_insert e u s) = Inr ()"
  using fetch_and_insert_try_raises_Exception[of e u s]
  by (auto simp: fetch_and_insert_def split: prod.splits sum.splits)

lemma fetch_and_insert_requests: "requests (snd (fetch_and_insert e u s)) = requests s @ [u]"
  by (auto simp: fetch_and_insert_def fetch_and_insert_try_def session_get_json_def
        page_get_results_def insert_docs_def insert_many_def Let_def
      split: response.splits json_page.splits option.splits list.splits if_splits)

lemma gather_returns: "fst (gather e us s) = Inr ()"
proof (induction us arbitrary: s)
  case Nil
  show ?case by simp
next
  case (Cons u us)
  obtain s' where "fetch_and_insert e u s = (Inr (), s')"
    using fetch_and_insert_returns[of e u s] by (cases "fetch_and_insert e u s") auto
  then show ?case using Cons.IH by simp
qed

lemma get_total_pages_try_raises:
  "fst (get_total_pages_try e chunk_size s) = Inl x \<Longrightarrow>
     isinstance_Exception x
     \<and> snd (get_total_pages_try e chunk_size s) = s\<lparr>requests := requests s @ [verification_url]\<rparr>"
  by (auto simp: get_total_pages_try_def session_get_json_def page_get_count_def
        round_true_div_def raised_is_Exception
      split: response.splits json_page.splits option.splits if_splits)

lemma failed_request_raises:
  "http e (length (requests s)) verification_url = Fails f \<Longrightarrow>
     fst (get_total_pages_try e chunk_size s) = Inl (raised f)"
  by (simp add: get_total_pages_try_def session_get_json_def)

lemma range_int_1_3: "range_int 1 3 = [1, 2]"
  by (simp add: range_int_def upto.simps)

section \<open>A catalog of 2500 items in pages of 1000\<close>

text \<open>
  Claim C2. When the verification response has \<^verbatim>\<open>count\<close> 2500 and the chunk size is
  1000, \<^verbatim>\<open>round(2500 / 1000)\<close> is 2 (the half goes to the even neighbour), so
  \<^verbatim>\<open>get_total_pages\<close> returns 3, and \<^verbatim>\<open>create_tasks\<close>, looping over \<^verbatim>\<open>range(1, 3)\<close>,
  creates exactly two tasks, for the pages 1 and 2.
\<close>

theorem count_2500_chunk_1000_gives_two_tasks:
  assumes "http e (length (requests s)) verification_url = Json (Json_object (Some 2500) r)"
  shows "round_half_even 2500 1000 = 2
         \<and> get_total_pages e 1000 s = (Inr 3, s\<lparr>requests := requests s @ [verification_url]\<rparr>)
         \<and> range_int 1 3 = [1, 2]
         \<and> create_tasks e 1000 s =
             (Inr [url_template 1000 1, url_template 1000 2],
              s\<lparr>requests := requests s @ [verification_url],
                tasks_created := tasks_created s @ [url_template 1000 1, url_template 1000 2]\<rparr>)"
proof -
  have rnd: "round_half_even 2500 1000 = 2"
    by (simp add: round_half_even_def)
  have pages: "get_total_pages e 1000 s = (Inr 3, s\<lparr>requests := requests s @ [verification_url]\<rparr>)"
    using assms
    by (simp add: get_total_pages_def get_total_pages_try_def session_get_json_def
          page_get_count_def round_true_div_def rnd)
  have "create_tasks e 1000 s =
          (Inr [url_template 1000 1, url_template 1000 2],
           s\<lparr>requests := requests s @ [verification_url],
             tasks_created := tasks_created s @ [url_template 1000 1, url_template 1000 2]\<rparr>)"
    by (simp add: create_tasks_def pages range_int_1_3 Let_def)
  with rnd pages range_int_1_3 show ?thesis by simp
qed

theorem count_2500_chunk_1000_gives_two_tasks_witness:
  "http catalog_2500 (length (requests (start_with []))) verification_url
     = Json (Json_object (Some 2500) (Some [book_of ''a'' ''n'' 4 7]))
   \<and> fst (get_total_pages catalog_2500 1000 (start_with [])) = Inr 3
   \<and> fst (create_tasks catalog_2500 1000 (start_with []))
       = Inr [url_template 1000 1, url_template 1000 2]
   \<and> tasks_created (snd (create_tasks catalog_2500 1000 (start_with [])))
       = [url_template 1000 1, url_template 1000 2]"
  using count_2500_chunk_1000_gives_two_tasks
          [of catalog_2500 "start_with []" "Some [book_of ''a'' ''n'' 4 7]"]
  by (simp add: catalog_2500_def start_with_def)

section \<open>A task that fails\<close>

lemma raised_not_BulkWriteError: "raised f \<noteq> BulkWriteError"
  by (cases f) simp_all

lemma fetch_and_insert_try_failure:
  assumes "fst (fetch_and_insert_try e u s) = Inl x"
  shows "requests (snd (fetch_and_insert_try e u s)) = requests s @ [u]"
    and "logged (snd (fetch_and_insert_try e u s)) = logged s"
    and "x \<noteq> BulkWriteError \<Longrightarrow> collection (snd (fetch_and_insert_try e u s)) = collection s"
    and "x = BulkWriteError \<Longrightarrow>
           \<exists>c ds i. http e (length (requests s)) u = Json (Json_object c (Some ds))
             \<and> rejected e (collection s) ds = Some i \<and> i < length ds
             \<and> collection (snd (fetch_and_insert_try e u s)) = collection s @ take i ds"
    and "http e (length (requests s)) u = Fails f \<Longrightarrow>
           x = raised f \<and> db_calls (snd (fetch_and_insert_try e u s)) = db_calls s"
  using assms
  by (auto simp: fetch_and_insert_try_def session_get_json_def page_get_results_def
        insert_docs_def insert_many_def Let_def raised_not_BulkWriteError
      split: response.splits json_page.splits option.splits list.splits if_splits)

lemma fetch_and_insert_handles:
  assumes "fst (fetch_and_insert_try e u s) = Inl x"
  shows "fetch_and_insert e u s =
           (Inr (),
            (snd (fetch_and_insert_try e u s))
              \<lparr>logged := logged (snd (fetch_and_insert_try e u s)) @
                 [if isinstance_InvalidURL x then Error_invalid_url u x
                  else if isinstance_ClientError x then Error_connection u x
                  else Error_unexpected u x]\<rparr>)"
  using assms fetch_and_insert_try_raises_Exception[OF assms]
  by (cases "fetch_and_insert_try e u s") (simp add: fetch_and_insert_def)

text \<open>
  Claim C3. Whenever anything inside the \<^verbatim>\<open>try\<close> of \<^verbatim>\<open>fetch_and_insert\<close>
  raises (the request or the decoding fails in one of the three ways, the body is no
  object, \<^verbatim>\<open>results\<close> is missing or empty, the store rejects a document), the task
  returns normally, has sent its one request and no second one, and has added exactly
  one record to the log, an error chosen by the first handler that fits. When the
  request itself fails the store is not called at all. The collection is unchanged
  unless the failure is the store's rejection of a document of the batch; then the
  documents of the batch before the rejected one remain in the collection. Whatever
  happens, neither \<^verbatim>\<open>fetch_and_insert\<close> nor the \<^verbatim>\<open>gather\<close> over the tasks raises.
\<close>

theorem failure_in_a_task_is_absorbed:
  assumes "fst (fetch_and_insert_try e u s) = Inl x"
  shows "fst (fetch_and_insert e u s) = Inr ()
         \<and> requests (snd (fetch_and_insert e u s)) = requests s @ [u]
         \<and> logged (snd (fetch_and_insert e u s))
             = logged s @
                 [if isinstance_InvalidURL x then Error_invalid_url u x
                  else if isinstance_ClientError x then Error_connection u x
                  else Error_unexpected u x]
         \<and> is_error_record (last (logged (snd (fetch_and_insert e u s))))
         \<and> (x \<noteq> BulkWriteError \<longrightarrow> collection (snd (fetch_and_insert e u s)) = collection s)
         \<and> (x = BulkWriteError \<longrightarrow>
              (\<exists>c ds i. http e (length (requests s)) u = Json (Json_object c (Some ds))
                 \<and> rejected e (collection s) ds = Some i \<and> i < length ds
                 \<and> collection (snd (fetch_and_insert e u s)) = collection s @ take i ds))
         \<and> (http e (length (requests s)) u = Fails f \<longrightarrow>
              x = raised f \<and> db_calls (snd (fetch_and_insert e u s)) = db_calls s)
         \<and> (http e' (length (requests s')) u' = Fails f' \<longrightarrow>
              fst (fetch_and_insert_try e' u' s') = Inl (raised f'))
         \<and> fst (fetch_and_insert e' u' s') = Inr ()
         \<and> fst (gather e' us s') = Inr ()"
proof -
  note h = fetch_and_insert_handles[OF assms]
  note t = fetch_and_insert_try_failure[OF assms]
  have "http e' (length (requests s')) u' = Fails f' \<longrightarrow>
          fst (fetch_and_insert_try e' u' s') = Inl (raised f')"
    by (simp add: fetch_and_insert_try_def session_get_json_def)
  moreover have "x = BulkWriteError \<longrightarrow>
      (\<exists>c ds i. http e (length (requests s)) u = Json (Json_object c (Some ds))
         \<and> rejected e (collection s) ds = Some i \<and> i < length ds
         \<and> collection (snd (fetch_and_insert e u s)) = collection s @ take i ds)"
    using t(4) by (simp add: h)
  moreover have "http e (length (requests s)) u = Fails f \<longrightarrow>
      x = raised f \<and> db_calls (snd (fetch_and_insert e u s)) = db_calls s"
    using t(5) by (simp add: h)
  moreover have "x \<noteq> BulkWriteError \<longrightarrow> collection (snd (fetch_and_insert e u s)) = collection s"
    using t(3) by (simp add: h)
  ultimately show ?thesis
    by (simp add: h t(1) t(2) fetch_and_insert_returns gather_returns)
qed

theorem failure_in_a_task_is_absorbed_witness:
  "fst (fetch_and_insert_try offline (url_template 1000 2) (start_with [book_of ''a'' ''n'' 4 7]))
     = Inl ClientError
   \<and> fetch_and_insert offline (url_template 1000 2) (start_with [book_of ''a'' ''n'' 4 7])
       = (Inr (),
          (start_with [book_of ''a'' ''n'' 4 7])
            \<lparr>requests := [url_template 1000 2],
             logged := [Error_connection (url_template 1000 2) ClientError]\<rparr>)
   \<and> fst (fetch_and_insert_try second_rejected (url_template 1000 1) (start_with []))
       = Inl BulkWriteError
   \<and> logged (snd (fetch_and_insert second_rejected (url_template 1000 1) (start_with [])))
       = [Error_unexpected (url_template 1000 1) BulkWriteError]
   \<and> rejected second_rejected (collection (start_with []))
         [book_of ''a'' ''n'' 4 7, book_of ''b'' ''n'' 3 5] = Some 1"
proof -
  have off: "fst (fetch_and_insert_try offline (url_template 1000 2)
                    (start_with [book_of ''a'' ''n'' 4 7])) = Inl ClientError"
    by (simp add: fetch_and_insert_try_def session_get_json_def offline_def)
  have rej: "fst (fetch_and_insert_try second_rejected (url_template 1000 1) (start_with []))
               = Inl BulkWriteError"
    by (simp add: fetch_and_insert_try_def session_get_json_def page_get_results_def
          insert_docs_def insert_many_def second_rejected_def start_with_def)
  have "fetch_and_insert offline (url_template 1000 2) (start_with [book_of ''a'' ''n'' 4 7])
       = (Inr (),
          (start_with [book_of ''a'' ''n'' 4 7])
            \<lparr>requests := [url_template 1000 2],
             logged := [Error_connection (url_template 1000 2) ClientError]\<rparr>)"
    by (simp add: fetch_and_insert_def fetch_and_insert_try_def session_get_json_def
          offline_def start_with_def)
  with off rej failure_in_a_task_is_absorbed[OF rej] show ?thesis
    by (simp add: start_with_def second_rejected_def)
qed

theorem rejected_write_leaves_documents_counterexample:
  "http second_rejected (length (requests (start_with []))) (url_template 1000 1)
     = Json (Json_object (Some 2) (Some [book_of ''a'' ''n'' 4 7, book_of ''b'' ''n'' 3 5]))
   \<and> fst (fetch_and_insert_try second_rejected (url_template 1000 1) (start_with []))
       = Inl BulkWriteError
   \<and> fetch_and_insert second_rejected (url_template 1000 1) (start_with [])
       = (Inr (),
          \<lparr>collection = [book_of ''a'' ''n'' 4 7],
           db_calls = [Insert_many (Some [book_of ''a'' ''n'' 4 7, book_of ''b'' ''n'' 3 5])],
           requests = [url_template 1000 1], tasks_created = [],
           logged = [Error_unexpected (url_template 1000 1) BulkWriteError],
           console = []\<rparr>)
   \<and> collection (snd (fetch_and_insert second_rejected (url_template 1000 1) (start_with [])))
       \<noteq> collection (start_with [])"
  by (simp add: fetch_and_insert_def fetch_and_insert_try_def session_get_json_def
        page_get_results_def insert_docs_def insert_many_def second_rejected_def
        start_with_def)

section \<open>A verification request that fails\<close>

text \<open>
  Claim C4. When anything in the verification step raises (the request or the decoding
  fails, the response is no object or has no numeric \<^verbatim>\<open>count\<close>, the division fails),
  \<^verbatim>\<open>get_total_pages\<close> logs the error and leaves with \<^verbatim>\<open>sys.exit(1)\<close>, which
  \<^verbatim>\<open>create_tasks\<close> and \<^verbatim>\<open>execute_tasks\<close> pass on: the run ends with a non-zero status
  after the one verification request, with no task created and the collection
  untouched. A request failing in any of the three ways is such a case.
\<close>

theorem failed_verification_aborts_before_any_task:
  assumes "fst (get_total_pages_try e chunk_size s) = Inl x"
  shows "execute_tasks e chunk_size s =
           (Inl (SystemExit (ExitCode 1)),
            s\<lparr>requests := requests s @ [verification_url],
              logged := logged s @ [Error_verification x]\<rparr>)
         \<and> fst (create_tasks e chunk_size s) = Inl (SystemExit (ExitCode 1))
         \<and> exit_status (fst (execute_tasks e chunk_size s)) \<noteq> 0
         \<and> tasks_created (snd (execute_tasks e chunk_size s)) = tasks_created s
         \<and> collection (snd (execute_tasks e chunk_size s)) = collection s
         \<and> db_calls (snd (execute_tasks e chunk_size s)) = db_calls s
         \<and> (http e' (length (requests s')) verification_url = Fails f
              \<longrightarrow> fst (get_total_pages_try e' c' s') = Inl (raised f))"
proof -
  have pages: "get_total_pages e chunk_size s =
          (Inl (SystemExit (ExitCode 1)),
           s\<lparr>requests := requests s @ [verification_url],
             logged := logged s @ [Error_verification x]\<rparr>)"
    using assms get_total_pages_try_raises[OF assms]
    by (cases "get_total_pages_try e chunk_size s") (simp add: get_total_pages_def)
  then have "execute_tasks e chunk_size s =
          (Inl (SystemExit (ExitCode 1)),
           s\<lparr>requests := requests s @ [verification_url],
             logged := logged s @ [Error_verification x]\<rparr>)"
    by (simp add: execute_tasks_def create_tasks_def)
  moreover have "fst (create_tasks e chunk_size s) = Inl (SystemExit (ExitCode 1))"
    using pages by (simp add: create_tasks_def)
  ultimately show ?thesis
    by (simp add: failed_request_raises)
qed

theorem failed_verification_aborts_before_any_task_witness:
  "fst (get_total_pages_try offline 1000 (start_with [])) = Inl ClientError
   \<and> execute_tasks offline 1000 (start_with [])
       = (Inl (SystemExit (ExitCode 1)),
          (start_with [])\<lparr>requests := [verification_url],
                           logged := [Error_verification ClientError]\<rparr>)
   \<and> tasks_created (snd (execute_tasks offline 1000 (start_with []))) = []
   \<and> http offline (length (requests (start_with []))) verification_url = Fails Transport_failure"
proof -
  have raises: "fst (get_total_pages_try offline 1000 (start_with [])) = Inl ClientError"
    by (simp add: get_total_pages_try_def session_get_json_def offline_def)
  show ?thesis
    using raises failed_verification_aborts_before_any_task [OF raises]
    by (simp add: offline_def start_with_def)
qed

section \<open>The panel queries\<close>

text \<open>
  Claim C10. \<^verbatim>\<open>await_all_queries\<close> raises \<^verbatim>\<open>AttributeError\<close> for every handler and every
  state of the store: the numeric query has put the total into \<^verbatim>\<open>results\<close>, and the
  loop over the six coroutine queries asks for the attribute \<^verbatim>\<open>await_coroutine_query\<close>,
  which a handler does not have (the method is \<^verbatim>\<open>_await_coroutine_query\<close>), before any
  of the six is awaited. For a new handler \<^verbatim>\<open>results\<close> then holds the total alone.
\<close>

theorem await_all_queries_raises_AttributeError:
  "await_all_queries h s =
     (Inl AttributeError,
      h\<lparr>results := results h @ [Number (length (collection s))]\<rparr>,
      s\<lparr>db_calls := db_calls s @ [Estimated_document_count]\<rparr>)
   \<and> results (fst (snd (await_all_queries PanelQueryHandler_init s)))
       = [Number (length (collection s))]
   \<and> length panel_coroutine_queries = 6
   \<and> map_of PanelQueryHandler_attributes ''await_coroutine_query'' = None
   \<and> map_of PanelQueryHandler_attributes ''_await_coroutine_query''
       = Some (Query_method private_await_coroutine_query)"
  by (simp add: await_all_queries_def private_await_all_numeric_queries_def
        private_await_all_coroutine_queries_def panel_numeric_queries_def
        panel_coroutine_queries_def call_self_def PanelQueryHandler_attributes_def
        private_await_numeric_query_def find_books_total_def estimated_document_count_def
        PanelQueryHandler_init_def)

theorem await_all_queries_raises_AttributeError_witness:
  "await_all_queries PanelQueryHandler_init (start_with [book_of ''a'' ''n'' 4 7])
     = (Inl AttributeError,
        \<lparr>results = [Number 1]\<rparr>,
        (start_with [book_of ''a'' ''n'' 4 7])\<lparr>db_calls := [Estimated_document_count]\<rparr>)"
  using await_all_queries_raises_AttributeError
          [of PanelQueryHandler_init "start_with [book_of ''a'' ''n'' 4 7]"]
  by (simp add: PanelQueryHandler_init_def start_with_def)

section \<open>Facts about the pipeline stages\<close>

lemma insert_desc_mset: "mset (insert_desc f x xs) = add_mset x (mset xs)"
  by (induction xs) auto

lemma sort_stage_desc_mset: "mset (sort_stage_desc f xs) = mset xs"
  unfolding sort_stage_desc_def by (induction xs) (auto simp: insert_desc_mset)

lemma insert_desc_set: "set (insert_desc f x xs) = insert x (set xs)"
  by (induction xs) auto

lemma insert_desc_sorted: "sorted_wrt (\<lambda>a b. f b \<le> f a) xs \<Longrightarrow> sorted_wrt (\<lambda>a b. f b \<le> f a) (insert_desc f x xs)"
  by (induction xs) (auto simp: insert_desc_set)

lemma sort_stage_desc_sorted: "sorted_wrt (\<lambda>a b. f b \<le> f a) (sort_stage_desc f xs)"
  unfolding sort_stage_desc_def by (induction xs) (auto simp: insert_desc_sorted)

lemma group_by_keys: "set (map fst (group_by key xs)) = key ` set xs"
  by (induction key xs rule: group_by.induct) auto

lemma group_by_key_in: "(k, ms) \<in> set (group_by key xs) \<Longrightarrow> k \<in> key ` set xs"
  using group_by_keys[of key xs] by force

lemma group_by_distinct: "distinct (map fst (group_by key xs))"
  by (induction key xs rule: group_by.induct) (auto dest: group_by_key_in)

lemma group_by_members: "(k, ms) \<in> set (group_by key xs) \<Longrightarrow> ms = filter (\<lambda>y. key y = k) xs"
proof (induction key xs rule: group_by.induct)
  case (1 key) then show ?case by simp
next
  case (2 key x xs)
  show ?case
  proof (cases "k = key x")
    case True
    with 2 show ?thesis by (auto dest: group_by_key_in)
  next
    case False
    with 2 have "ms = filter (\<lambda>y. key y = k) (filter (\<lambda>y. key y \<noteq> key x) xs)" by auto
    also have "\<dots> = filter (\<lambda>y. key y = k) xs" using False by (auto intro: filter_cong)
    finally show ?thesis using False by auto
  qed
qed

lemma second_of_list: "limit_stage 1 (skip_stage 1 ys) = (if 2 \<le> length ys then [ys ! 1] else [])"
  by (cases ys; cases "tl ys") (auto simp: limit_stage_def skip_stage_def)


lemma sort_stage_desc_set: "set (sort_stage_desc f xs) = set xs"
  using sort_stage_desc_mset[of f xs] by (metis set_mset_mset)

lemma sort_stage_desc_length: "length (sort_stage_desc f xs) = length xs"
  using sort_stage_desc_mset[of f xs] by (metis size_mset)

lemma sort_stage_desc_distinct: "distinct (sort_stage_desc f xs) = distinct xs"
  using sort_stage_desc_mset[of f xs] by (metis distinct_count_atmost_1 set_mset_mset)

lemma sorted_desc_nth:
  fixes f :: "'r \<Rightarrow> 'v::linorder"
  assumes "sorted_wrt (\<lambda>a b. f b \<le> f a) ys" "i \<le> j" "j < length ys"
  shows "f (ys ! j) \<le> f (ys ! i)"
proof (cases "i = j")
  case True then show ?thesis by simp
next
  case False
  with assms have "i < j" by simp
  then show ?thesis using sorted_wrt_nth_less[OF assms(1) _ assms(3), of i] by simp
qed

lemma second_ranked:
  fixes f :: "'r \<Rightarrow> 'v::linorder"
  assumes d: "distinct xs" and r: "r \<in> set (limit_stage 1 (skip_stage 1 (sort_stage_desc f xs)))"
  shows "\<exists>top \<in> set xs. top \<noteq> r \<and> f r \<le> f top \<and> (\<forall>g \<in> set xs. g \<noteq> top \<longrightarrow> f g \<le> f r)"
proof -
  let ?ys = "sort_stage_desc f xs"
  have s: "sorted_wrt (\<lambda>a b. f b \<le> f a) ?ys" by (rule sort_stage_desc_sorted)
  have dy: "distinct ?ys" using d by (simp add: sort_stage_desc_distinct)
  from r[unfolded second_of_list] have len: "2 \<le> length ?ys" and req: "r = ?ys ! 1"
    by (auto split: if_splits)
  have "?ys \<noteq> []" using len by auto
  then have top_in: "?ys ! 0 \<in> set xs" using nth_mem[of 0 ?ys] by (simp add: sort_stage_desc_set)
  have l0: "0 < length ?ys" and l1: "1 < length ?ys" using len by linarith+
  have neq: "?ys ! 0 \<noteq> r" using nth_eq_iff_index_eq[OF dy l0 l1] req by simp
  have le: "f r \<le> f (?ys ! 0)" using sorted_desc_nth[OF s, of 0 1] len req by simp
  have rest: "f g \<le> f r" if "g \<in> set xs" "g \<noteq> ?ys ! 0" for g
  proof -
    from that(1) obtain i where i: "i < length ?ys" "?ys ! i = g"
      by (metis in_set_conv_nth sort_stage_desc_set)
    with that(2) have "1 \<le> i" by (cases i) auto
    then show ?thesis using sorted_desc_nth[OF s, of 1 i] i req by simp
  qed
  show ?thesis using top_in neq le rest by blast
qed


lemma prolific_groups_ids: "map count_id (prolific_groups who ds) = map fst (group_by (\<lambda>d. cover_name (who d)) ds)"
  by (simp add: prolific_groups_def group_stage_def case_prod_unfold comp_def)

lemma prolific_groups_distinct: "distinct (prolific_groups who ds)"
  using group_by_distinct[of "\<lambda>d. cover_name (who d)" ds]
  by (metis prolific_groups_ids distinct_map)

lemma prolific_groups_count:
  assumes "g \<in> set (prolific_groups who ds)"
  shows "num_books g = length (filter (\<lambda>d. cover_name (who d) = count_id g) ds)"
  using assms by (auto simp: prolific_groups_def group_stage_def sum_1_def dest: group_by_members)


lemma prolific_groups_keys:
  "set (map count_id (prolific_groups who ds)) = (\<lambda>d. cover_name (who d)) ` set ds"
  by (simp only: prolific_groups_ids group_by_keys)


section \<open>The most prolific author and narrator\<close>

text \<open>
  Claim C5. \<^verbatim>\<open>find_most_prolific_author\<close> and \<^verbatim>\<open>find_most_prolific_narrator\<close> run the
  same pipeline on the author and on the narrator: one group for each name with the
  number of its documents, the groups sorted by that number in descending order, one
  row skipped, one row kept. So the result is the row at the second place of the
  ranking (nothing when there are fewer than two groups) and never the row at the
  first place: some other group has at least as many documents as a returned row, and
  every group but that one has at most as many. A group with strictly more documents
  than every other group is therefore never returned.
\<close>

theorem most_prolific_is_the_second_ranked_group:
  "find_most_prolific_author ds = prolific_pipeline main_author ds
   \<and> find_most_prolific_narrator ds = prolific_pipeline main_actor ds
   \<and> prolific_pipeline who ds
       = take 1 (drop 1 (sort_stage_desc num_books (prolific_groups who ds)))
   \<and> prolific_pipeline who ds
       = (if 2 \<le> length (prolific_groups who ds)
          then [sort_stage_desc num_books (prolific_groups who ds) ! 1] else [])
   \<and> sorted_wrt (\<lambda>a b. num_books b \<le> num_books a)
        (sort_stage_desc num_books (prolific_groups who ds))
   \<and> mset (sort_stage_desc num_books (prolific_groups who ds)) = mset (prolific_groups who ds)
   \<and> distinct (map count_id (prolific_groups who ds))
   \<and> set (map count_id (prolific_groups who ds)) = (\<lambda>d. cover_name (who d)) ` set ds
   \<and> (\<forall>g \<in> set (prolific_groups who ds).
         num_books g = length (filter (\<lambda>d. cover_name (who d) = count_id g) ds))
   \<and> (\<forall>r \<in> set (prolific_pipeline who ds).
         \<exists>top \<in> set (prolific_groups who ds).
           top \<noteq> r \<and> num_books r \<le> num_books top
           \<and> (\<forall>g \<in> set (prolific_groups who ds). g \<noteq> top \<longrightarrow> num_books g \<le> num_books r))
   \<and> (\<forall>g \<in> set (prolific_groups who ds).
         (\<forall>g' \<in> set (prolific_groups who ds). g' \<noteq> g \<longrightarrow> num_books g' < num_books g)
         \<longrightarrow> g \<notin> set (prolific_pipeline who ds))
   \<and> (prolific_groups who ds \<noteq> []
        \<longrightarrow> sort_stage_desc num_books (prolific_groups who ds) ! 0
              \<notin> set (prolific_pipeline who ds))"
proof -
  let ?groups = "prolific_groups who ds"
  let ?ranked = "sort_stage_desc num_books ?groups"
  have pipe: "prolific_pipeline who ds = limit_stage 1 (skip_stage 1 ?ranked)"
    by (simp add: prolific_pipeline_def)
  have second: "\<exists>top \<in> set ?groups. top \<noteq> r \<and> num_books r \<le> num_books top
                  \<and> (\<forall>g \<in> set ?groups. g \<noteq> top \<longrightarrow> num_books g \<le> num_books r)"
    if "r \<in> set (prolific_pipeline who ds)" for r
    using that second_ranked[OF prolific_groups_distinct, of r num_books who ds]
    by (simp only: pipe)
  have strict: "g \<notin> set (prolific_pipeline who ds)"
    if "g \<in> set ?groups"
      and "\<forall>g' \<in> set ?groups. g' \<noteq> g \<longrightarrow> num_books g' < num_books g" for g
  proof
    assume "g \<in> set (prolific_pipeline who ds)"
    from second[OF this] obtain top where
      "top \<in> set ?groups" "top \<noteq> g" "num_books g \<le> num_books top" by blast
    with that(2) show False by fastforce
  qed
  have first: "?ranked ! 0 \<notin> set (prolific_pipeline who ds)" if "?groups \<noteq> []"
  proof
    assume "?ranked ! 0 \<in> set (prolific_pipeline who ds)"
    then have len: "2 \<le> length ?ranked" and eq: "?ranked ! 0 = ?ranked ! 1"
      unfolding pipe second_of_list by (auto split: if_splits)
    have d: "distinct ?ranked"
      by (simp add: sort_stage_desc_distinct prolific_groups_distinct)
    have "0 < length ?ranked" and "1 < length ?ranked"
      using len by linarith+
    from nth_eq_iff_index_eq[OF d this] eq show False by simp
  qed
  have "prolific_pipeline who ds = take 1 (drop 1 ?ranked)"
    by (simp add: pipe limit_stage_def skip_stage_def)
  moreover have "prolific_pipeline who ds = (if 2 \<le> length ?groups then [?ranked ! 1] else [])"
    unfolding pipe second_of_list by (simp only: sort_stage_desc_length)
  moreover have "distinct (map count_id ?groups)"
    by (simp only: prolific_groups_ids group_by_distinct)
  moreover note sort_stage_desc_sorted[of num_books ?groups]
    sort_stage_desc_mset[of num_books ?groups] prolific_groups_keys[of who ds]
  ultimately show ?thesis
    using second strict first prolific_groups_count[of _ who ds]
    by (simp add: find_most_prolific_author_def find_most_prolific_narrator_def)
qed

theorem most_prolific_is_the_second_ranked_group_witness:
  "find_most_prolific_author prolific_shelf
     = [\<lparr>count_id = Some ''a'', num_books = 2, count_uri = Some ''/a''\<rparr>]
   \<and> find_most_prolific_narrator prolific_shelf
     = [\<lparr>count_id = Some ''x'', num_books = 2, count_uri = Some ''/x''\<rparr>]
   \<and> sort_stage_desc num_books (prolific_groups main_author prolific_shelf)
     = [\<lparr>count_id = Some ''kp'', num_books = 3, count_uri = Some ''/kp''\<rparr>,
        \<lparr>count_id = Some ''a'', num_books = 2, count_uri = Some ''/a''\<rparr>,
        \<lparr>count_id = Some ''b'', num_books = 1, count_uri = Some ''/b''\<rparr>]
   \<and> \<lparr>count_id = Some ''kp'', num_books = 3, count_uri = Some ''/kp''\<rparr>
       \<notin> set (find_most_prolific_author prolific_shelf)"
proof -
  have groups: "prolific_groups main_author prolific_shelf
     = [\<lparr>count_id = Some ''kp'', num_books = 3, count_uri = Some ''/kp''\<rparr>,
        \<lparr>count_id = Some ''a'', num_books = 2, count_uri = Some ''/a''\<rparr>,
        \<lparr>count_id = Some ''b'', num_books = 1, count_uri = Some ''/b''\<rparr>]"
    by (simp add: prolific_groups_def group_stage_def prolific_shelf_def book_of_def
          sum_1_def first_acc_def)
  have ranked: "sort_stage_desc num_books (prolific_groups main_author prolific_shelf)
     = [\<lparr>count_id = Some ''kp'', num_books = 3, count_uri = Some ''/kp''\<rparr>,
        \<lparr>count_id = Some ''a'', num_books = 2, count_uri = Some ''/a''\<rparr>,
        \<lparr>count_id = Some ''b'', num_books = 1, count_uri = Some ''/b''\<rparr>]"
    by (simp add: groups sort_stage_desc_def)
  have narrators: "prolific_groups main_actor prolific_shelf
     = [\<lparr>count_id = Some ''anon'', num_books = 3, count_uri = Some ''/anon''\<rparr>,
        \<lparr>count_id = Some ''x'', num_books = 2, count_uri = Some ''/x''\<rparr>,
        \<lparr>count_id = Some ''y'', num_books = 1, count_uri = Some ''/y''\<rparr>]"
    by (simp add: prolific_groups_def group_stage_def prolific_shelf_def book_of_def
          sum_1_def first_acc_def)
  have narrated: "sort_stage_desc num_books (prolific_groups main_actor prolific_shelf)
     = [\<lparr>count_id = Some ''anon'', num_books = 3, count_uri = Some ''/anon''\<rparr>,
        \<lparr>count_id = Some ''x'', num_books = 2, count_uri = Some ''/x''\<rparr>,
        \<lparr>count_id = Some ''y'', num_books = 1, count_uri = Some ''/y''\<rparr>]"
    by (simp add: narrators sort_stage_desc_def)
  from most_prolific_is_the_second_ranked_group[of prolific_shelf main_author]
  have a: "find_most_prolific_author prolific_shelf
             = take 1 (drop 1 (sort_stage_desc num_books (prolific_groups main_author prolific_shelf)))"
    by simp
  from most_prolific_is_the_second_ranked_group[of prolific_shelf main_actor]
  have n: "find_most_prolific_narrator prolific_shelf
             = take 1 (drop 1 (sort_stage_desc num_books (prolific_groups main_actor prolific_shelf)))"
    by simp
  show ?thesis
    by (simp add: a n ranked narrated)
qed

section \<open>The authors with the highest averages\<close>



section \<open>A query of more than nine words\<close>

text \<open>
  Claim C9. For a query of more than 9 words \<^verbatim>\<open>get_instance_queryset\<close> calls
  \<^verbatim>\<open>sys.exit\<close> with the text that the query is too long, before any call to the store:
  it returns no result but raises \<^verbatim>\<open>SystemExit\<close> with that text, and the state is
  untouched. \<^verbatim>\<open>main\<close> does not catch it, in the author branch or in the book branch,
  so the program ends there with status 1.
\<close>

theorem too_long_query_leaves_with_SystemExit:
  assumes "9 < length args"
  shows "get_instance_queryset e instance args s
           = (Inl (SystemExit (ExitText TOO_LONG_QUERY_MSG)), s)
         \<and> exit_status (fst (get_instance_queryset e instance args s)) = 1
         \<and> (\<not> arg_load a \<and> \<not> arg_drop_collection a \<and> \<not> arg_stats a
              \<and> (arg_author a = Some args \<or> \<not> truthy (arg_author a) \<and> arg_book a = Some args)
             \<longrightarrow> main e a s = (Inl (SystemExit (ExitText TOO_LONG_QUERY_MSG)), s)
                 \<and> exit_status (fst (main e a s)) = 1)"
proof -
  have q: "get_instance_queryset e i args s
             = (Inl (SystemExit (ExitText TOO_LONG_QUERY_MSG)), s)" for i
    using assms by (simp add: get_instance_queryset_def Let_def)
  have ne: "args \<noteq> []"
    using assms by auto
  have "main e a s = (Inl (SystemExit (ExitText TOO_LONG_QUERY_MSG)), s)"
    if "\<not> arg_load a" "\<not> arg_drop_collection a" "\<not> arg_stats a"
       "arg_author a = Some args \<or> \<not> truthy (arg_author a) \<and> arg_book a = Some args"
    using that ne by (auto simp: main_def truthy_def q Let_def)
  then show ?thesis
    by (simp add: q)
qed

theorem too_long_query_leaves_with_SystemExit_witness:
  "9 < length ten_words
   \<and> get_instance_queryset offline ''name'' ten_words (start_with [])
       = (Inl (SystemExit (ExitText TOO_LONG_QUERY_MSG)), start_with [])
   \<and> arg_book (no_args\<lparr>arg_book := Some ten_words\<rparr>) = Some ten_words
   \<and> main offline (no_args\<lparr>arg_book := Some ten_words\<rparr>) (start_with [])
       = (Inl (SystemExit (ExitText TOO_LONG_QUERY_MSG)), start_with [])"
proof -
  have len: "9 < length ten_words"
    by (simp add: ten_words_def)
  from too_long_query_leaves_with_SystemExit
         [OF len, of offline "''name''" "start_with []" "no_args\<lparr>arg_book := Some ten_words\<rparr>"]
  show ?thesis
    using len by (simp add: no_args_def truthy_def)
qed

theorem too_long_query_raises_counterexample:
  "length ten_words = 10
   \<and> fst (get_instance_queryset offline ''main_author.cover_name'' ten_words (start_with []))
       = Inl (SystemExit (ExitText TOO_LONG_QUERY_MSG))
   \<and> fst (main offline (no_args\<lparr>arg_author := Some ten_words\<rparr>) (start_with []))
       = Inl (SystemExit (ExitText TOO_LONG_QUERY_MSG))
   \<and> exit_status (fst (main offline (no_args\<lparr>arg_author := Some ten_words\<rparr>) (start_with [])))
       = 1"
  by (simp add: get_instance_queryset_def main_def truthy_def no_args_def ten_words_def
        INSTANCE_DB_MAPPING_get_def Let_def)

section \<open>Facts about the lookup loop\<close>

lemma selections_mset: "(y, ys) \<in> set (selections xs) \<Longrightarrow> mset xs = add_mset y (mset ys)"
  by (induction xs arbitrary: y ys) auto

lemma permutations_split:
  "p \<in> set (permutations xs r) \<Longrightarrow> length p = r \<and> (\<exists>rest. mset xs = mset p + mset rest)"
proof (induction r arbitrary: xs p)
  case 0
  then show ?case by (auto intro: exI[of _ xs])
next
  case (Suc r)
  from Suc.prems obtain y ys q where
    sel: "(y, ys) \<in> set (selections xs)" and q: "q \<in> set (permutations ys r)" and p: "p = y # q"
    by auto
  from Suc.IH[OF q] obtain rest where "length q = r" "mset ys = mset q + mset rest"
    by blast
  with selections_mset[OF sel] p show ?case
    by auto
qed

lemma permutations_of_the_whole_list:
  assumes "p \<in> set (permutations xs (length xs))"
  shows "mset p = mset xs"
proof -
  from permutations_split[OF assms] obtain rest where
    len: "length p = length xs" and split: "mset xs = mset p + mset rest"
    by blast
  from split have "size (mset xs) = size (mset p) + size (mset rest)"
    by simp
  with len have "rest = []"
    by simp
  with split show ?thesis
    by simp
qed

text \<open>
  The loop asks for the count of each candidate in turn, stops at the first candidate
  with a positive count and searches with exactly that pattern; when no candidate has
  one it has asked for all of them and finds nothing.
\<close>

lemma probe_loop_stops_at_the_first_match:
  assumes "collection s = ds"
  shows "probe_loop e instance cands s =
     (case find (\<lambda>c. 0 < length (filter (regex e instance (join '' '' c)) ds)) cands of
        None \<Rightarrow>
          (Inr None,
           s\<lparr>db_calls := db_calls s
                @ map (\<lambda>c. Count_documents instance (join '' '' c)) cands\<rparr>)
      | Some c \<Rightarrow>
          (Inr (Some (map (project_book False False True)
                   (sort_stage_desc reviews_count (filter (regex e instance (join '' '' c)) ds)))),
           s\<lparr>db_calls := db_calls s
                @ map (\<lambda>c. Count_documents instance (join '' '' c))
                    (takeWhile (\<lambda>c. \<not> 0 < length (filter (regex e instance (join '' '' c)) ds))
                       cands)
                @ [Count_documents instance (join '' '' c), Find instance (join '' '' c)]\<rparr>))"
  using assms
proof (induction cands arbitrary: s)
  case Nil
  then show ?case by simp
next
  case (Cons c cands)
  let ?s1 = "s\<lparr>db_calls := db_calls s @ [Count_documents instance (join '' '' c)]\<rparr>"
  have s1: "collection ?s1 = ds"
    using Cons.prems by simp
  show ?case
  proof (cases "0 < length (filter (regex e instance (join '' '' c)) ds)")
    case True
    with Cons.prems show ?thesis
      by (simp add: count_docs_def find_instance_stats_def del: join.simps)
  next
    case False
    with Cons.prems Cons.IH[OF s1] show ?thesis
      by (simp add: count_docs_def del: join.simps split: option.splits)
  qed
qed

text \<open>
  For every query of at most nine words that is not an author query of two words, the
  candidates are the permutations of the words in the order of the generator, and the
  second component of the result is the unpermuted query.
\<close>

lemma lookup_by_the_permutations_of_the_words:
  assumes "length args \<le> 9" and "\<not> (instance = ''author'' \<and> length args = 2)"
  shows "get_instance_queryset e instance args s =
     (case find (\<lambda>c. 0 < length (filter (regex e instance (join '' '' c)) (collection s)))
             (permutations args (length args)) of
        None \<Rightarrow>
          (Inr (Template NOTHING_FOUND_TEMPLATE, join '' '' args),
           s\<lparr>db_calls := db_calls s
                @ map (\<lambda>c. Count_documents instance (join '' '' c))
                    (permutations args (length args))\<rparr>)
      | Some c \<Rightarrow>
          (Inr (Cursor (map (project_book False False True)
                   (sort_stage_desc reviews_count
                      (filter (regex e instance (join '' '' c)) (collection s)))),
                join '' '' args),
           s\<lparr>db_calls := db_calls s
                @ map (\<lambda>c. Count_documents instance (join '' '' c))
                    (takeWhile
                       (\<lambda>c. \<not> 0 < length (filter (regex e instance (join '' '' c)) (collection s)))
                       (permutations args (length args)))
                @ [Count_documents instance (join '' '' c), Find instance (join '' '' c)]\<rparr>))"
proof -
  have "get_instance_queryset e instance args s =
     (case probe_loop e instance (permutations args (length args)) s of
        (Inl x, s') \<Rightarrow> (Inl x, s')
      | (Inr (Some async_queryset), s') \<Rightarrow> (Inr (Cursor async_queryset, join '' '' args), s')
      | (Inr None, s') \<Rightarrow> (Inr (Template NOTHING_FOUND_TEMPLATE, join '' '' args), s'))"
    using assms by (auto simp: get_instance_queryset_def Let_def)
  then show ?thesis
    by (simp only: probe_loop_stops_at_the_first_match[OF refl])
       (simp split: option.splits)
qed

section \<open>Looking up an author by two words\<close>



end
